theory Spec2Isabelle
  imports Main "HOL-Library.Word" "HOL-Library.Monad_Syntax"
begin

unbundle bit_operations_syntax

section \<open>The generic cache of cachePro.go\<close>

subsection \<open>Time, durations and entries\<close>

text \<open>
  \<^verbatim>\<open>time.Duration\<close>, \<^verbatim>\<open>Expiration\<close> and the result of \<^verbatim>\<open>time.Now().UnixNano()\<close> are Go
  \<^verbatim>\<open>int64\<close> values, counted in nanoseconds. They are modelled as \<^typ>\<open>int\<close>; the one
  arithmetic operation of the cache, \<^verbatim>\<open>time.Now().Add(d).UnixNano()\<close>, wraps around as
  \<^verbatim>\<open>int64\<close> addition does, and the wrap-around is written out in \<open>wrap64\<close>. Every
  clock reading of the source is a parameter of the function that takes it.
\<close>

definition wrap64 :: "int \<Rightarrow> int" where
  "wrap64 x = (x + 2 ^ 63) mod 2 ^ 64 - 2 ^ 63"

definition DefaultExpiration :: int where
  "DefaultExpiration = 0"

definition NoExpiration :: int where
  "NoExpiration = - 1"

record 'v ItemPro =
  Object :: 'v
  Expiration :: int

text \<open>The method \<^verbatim>\<open>ItemPro.Expired\<close>; \<open>now\<close> is its clock reading.\<close>

definition Expired :: "int \<Rightarrow> 'v ItemPro \<Rightarrow> bool" where
  "Expired now item = (if Expiration item = 0 then False else now > Expiration item)"

text \<open>
  The struct \<^verbatim>\<open>cachePro\<close>. The two callbacks are opaque Go functions: the fields
  \<open>onEvicted\<close> and \<open>delFunc\<close> record whether the function value is non-nil, and each
  call of a callback is written to a trace of events together with its arguments. The
  builtin \<^verbatim>\<open>delete(c.items, k)\<close> is an event too, so that the trace orders the callbacks
  against the mutation of the map. The mutex and the janitor are left out: every
  function below runs as one atomic step.
\<close>

record 'v cachePro =
  defaultExpiration :: int
  items :: "string \<rightharpoonup> 'v ItemPro"
  onEvicted :: bool
  delFunc :: bool

datatype 'v event =
  DelFuncCall 'v
  | MapDelete string
  | OnEvictedCall string 'v

datatype error =
  ItemAlreadyExists string
  | ItemDoesntExist string
  | KeyNotFound string
  | KeyHasExpired string

subsection \<open>Writing\<close>

definition Set :: "'v cachePro \<Rightarrow> int \<Rightarrow> string \<Rightarrow> 'v \<Rightarrow> int \<Rightarrow> 'v cachePro" where
  "Set c now k x d =
     (let d = (if d = DefaultExpiration then defaultExpiration c else d);
          e = (if d > 0 then wrap64 (now + d) else 0)
      in c\<lparr>items := (items c)(k \<mapsto> \<lparr>Object = x, Expiration = e\<rparr>)\<rparr>)"

text \<open>The unexported \<^verbatim>\<open>set\<close>, called with the lock held.\<close>

definition set_unlocked :: "'v cachePro \<Rightarrow> int \<Rightarrow> string \<Rightarrow> 'v \<Rightarrow> int \<Rightarrow> 'v cachePro" where
  "set_unlocked c now k x d =
     (let d = (if d = DefaultExpiration then defaultExpiration c else d);
          e = (if d > 0 then wrap64 (now + d) else 0)
      in c\<lparr>items := (items c)(k \<mapsto> \<lparr>Object = x, Expiration = e\<rparr>)\<rparr>)"

definition SetDefault :: "'v cachePro \<Rightarrow> int \<Rightarrow> string \<Rightarrow> 'v \<Rightarrow> 'v cachePro" where
  "SetDefault c now k x = Set c now k x DefaultExpiration"

subsection \<open>Reading\<close>

text \<open>
  \<^verbatim>\<open>Get\<close> returns \<^verbatim>\<open>(zero, false)\<close> or \<^verbatim>\<open>(item.Object, true)\<close>: \<open>None\<close> or
  \<open>Some\<close> of the object.
\<close>

definition Get :: "'v cachePro \<Rightarrow> int \<Rightarrow> string \<Rightarrow> 'v option" where
  "Get c now k =
     (case items c k of
        None \<Rightarrow> None
      | Some item \<Rightarrow>
          if Expiration item > 0 then
            (if now > Expiration item then None else Some (Object item))
          else Some (Object item))"

text \<open>The unexported \<^verbatim>\<open>get\<close>, called with the lock held.\<close>

definition get_unlocked :: "'v cachePro \<Rightarrow> int \<Rightarrow> string \<Rightarrow> 'v option" where
  "get_unlocked c now k =
     (case items c k of
        None \<Rightarrow> None
      | Some item \<Rightarrow>
          if Expiration item > 0 then
            (if now > Expiration item then None else Some (Object item))
          else Some (Object item))"

text \<open>
  \<^verbatim>\<open>GetWithExpiration\<close> returns a \<^verbatim>\<open>time.Time\<close> beside the object: the zero
  \<^verbatim>\<open>time.Time{}\<close> is \<open>None\<close>, and \<^verbatim>\<open>time.Unix(0, e)\<close> is \<open>Some e\<close>.
\<close>

definition GetWithExpiration :: "'v cachePro \<Rightarrow> int \<Rightarrow> string \<Rightarrow> ('v \<times> int option) option" where
  "GetWithExpiration c now k =
     (case items c k of
        None \<Rightarrow> None
      | Some item \<Rightarrow>
          if Expiration item > 0 then
            (if now > Expiration item then None
             else Some (Object item, Some (Expiration item)))
          else Some (Object item, None))"

subsection \<open>Conditional writes\<close>

text \<open>
  \<^verbatim>\<open>Add\<close> reads the clock twice, once in \<^verbatim>\<open>get\<close> and once in \<^verbatim>\<open>set\<close>. A
  \<^verbatim>\<open>nil\<close> error is \<open>None\<close>.
\<close>

definition Add :: "'v cachePro \<Rightarrow> int \<Rightarrow> int \<Rightarrow> string \<Rightarrow> 'v \<Rightarrow> int \<Rightarrow> error option \<times> 'v cachePro" where
  "Add c now1 now2 k x d =
     (case get_unlocked c now1 k of
        Some _ \<Rightarrow> (Some (ItemAlreadyExists k), c)
      | None \<Rightarrow> (None, set_unlocked c now2 k x d))"

definition Replace :: "'v cachePro \<Rightarrow> int \<Rightarrow> int \<Rightarrow> string \<Rightarrow> 'v \<Rightarrow> int \<Rightarrow> error option \<times> 'v cachePro" where
  "Replace c now1 now2 k x d =
     (case get_unlocked c now1 k of
        None \<Rightarrow> (Some (ItemDoesntExist k), c)
      | Some _ \<Rightarrow> (None, set_unlocked c now2 k x d))"

subsection \<open>Deleting\<close>

text \<open>
  The unexported \<^verbatim>\<open>delete\<close> returns \<^verbatim>\<open>(v.Object, true)\<close> or \<^verbatim>\<open>(nil, false)\<close>:
  \<open>Some\<close> of the object or \<open>None\<close>. Beside it come the new state and the events of the
  call, in the order in which they happen.
\<close>

definition delete :: "'v cachePro \<Rightarrow> string \<Rightarrow> 'v option \<times> 'v cachePro \<times> 'v event list" where
  "delete c k =
     (let removed = c\<lparr>items := (items c)(k := None)\<rparr>;
          fallthrough =
            (None, removed,
             (case items c k of
                Some v \<Rightarrow> (if delFunc c then [DelFuncCall (Object v)] else [])
              | None \<Rightarrow> []) @ [MapDelete k])
      in if onEvicted c then
           (case items c k of
              Some v \<Rightarrow>
                (Some (Object v), removed,
                 (if delFunc c then [DelFuncCall (Object v)] else []) @ [MapDelete k])
            | None \<Rightarrow> fallthrough)
         else fallthrough)"

definition Delete :: "'v cachePro \<Rightarrow> string \<Rightarrow> 'v cachePro \<times> 'v event list" where
  "Delete c k =
     (case delete c k of
        (Some v, c', tr) \<Rightarrow> (c', tr @ [OnEvictedCall k v])
      | (None, c', tr) \<Rightarrow> (c', tr))"

text \<open>
  \<^verbatim>\<open>DeleteExpired\<close> ranges over the map while it deletes from it. Go fixes no order
  for the range: the list \<open>ks\<close> is the order in which the keys come. A key that is no
  longer in the map when its turn comes is not produced. The loop collects the evicted
  pairs and the events of the calls of \<^verbatim>\<open>delete\<close>; the eviction callbacks run after the
  loop.
\<close>

fun DeleteExpired_range ::
  "'v cachePro \<Rightarrow> int \<Rightarrow> string list \<Rightarrow> (string \<times> 'v) list \<Rightarrow> 'v event list
     \<Rightarrow> 'v cachePro \<times> (string \<times> 'v) list \<times> 'v event list" where
  "DeleteExpired_range c now [] evictedItems tr = (c, evictedItems, tr)"
| "DeleteExpired_range c now (k # ks) evictedItems tr =
     (case items c k of
        None \<Rightarrow> DeleteExpired_range c now ks evictedItems tr
      | Some v \<Rightarrow>
          if Expiration v > 0 \<and> now > Expiration v then
            (case delete c k of
               (Some ov, c', tr') \<Rightarrow>
                 DeleteExpired_range c' now ks (evictedItems @ [(k, ov)]) (tr @ tr')
             | (None, c', tr') \<Rightarrow> DeleteExpired_range c' now ks evictedItems (tr @ tr'))
          else DeleteExpired_range c now ks evictedItems tr)"

definition DeleteExpired :: "'v cachePro \<Rightarrow> int \<Rightarrow> string list \<Rightarrow> 'v cachePro \<times> 'v event list" where
  "DeleteExpired c now ks =
     (case DeleteExpired_range c now ks [] [] of
        (c', evictedItems, tr) \<Rightarrow> (c', tr @ map (\<lambda>(k, v). OnEvictedCall k v) evictedItems))"

subsection \<open>Counting, flushing and constructing\<close>

definition ItemCount :: "'v cachePro \<Rightarrow> nat" where
  "ItemCount c = card (dom (items c))"

definition Flush :: "'v cachePro \<Rightarrow> 'v cachePro \<times> 'v event list" where
  "Flush c = (c\<lparr>items := Map.empty\<rparr>, [])"

text \<open>
  \<^verbatim>\<open>newCachePro\<close> leaves \<^verbatim>\<open>onEvicted\<close> and \<^verbatim>\<open>delFunc\<close> at their zero value \<^verbatim>\<open>nil\<close>;
  \<^verbatim>\<open>newCacheProWithJanitor\<close> then stores the destructor. The janitor it may start is
  not modelled.
\<close>

definition newCachePro :: "int \<Rightarrow> (string \<rightharpoonup> 'v ItemPro) \<Rightarrow> 'v cachePro" where
  "newCachePro de m =
     (let de = (if de = 0 then - 1 else de)
      in \<lparr>defaultExpiration = de, items = m, onEvicted = False, delFunc = False\<rparr>)"

definition newCacheProWithJanitor ::
  "int \<Rightarrow> int \<Rightarrow> (string \<rightharpoonup> 'v ItemPro) \<Rightarrow> bool \<Rightarrow> 'v cachePro" where
  "newCacheProWithJanitor de ci m DelFunc = (newCachePro de m)\<lparr>delFunc := DelFunc\<rparr>"

definition NewPro :: "int \<Rightarrow> int \<Rightarrow> bool \<Rightarrow> 'v cachePro" where
  "NewPro de ci DelFunc = newCacheProWithJanitor de ci Map.empty DelFunc"

definition OnEvicted :: "'v cachePro \<Rightarrow> bool \<Rightarrow> 'v cachePro" where
  "OnEvicted c f = c\<lparr>onEvicted := f\<rparr>"

subsection \<open>Computing\<close>

text \<open>
  \<^verbatim>\<open>Compute\<close>, \<^verbatim>\<open>ComputeWithExpiration\<close> and \<^verbatim>\<open>ComputeTwoKeys\<close> return
  \<^verbatim>\<open>(T, error)\<close>: \<open>Inr\<close> of the value when the error is \<^verbatim>\<open>nil\<close>, \<open>Inl\<close> of the error
  otherwise. \<^verbatim>\<open>ComputeTwoKeys\<close> reads the clock up to three times: \<open>now0\<close> for the
  expiration of the result, \<open>now1\<close> and \<open>now2\<close> for the checks of the two keys.
\<close>

definition Compute ::
  "'v cachePro \<Rightarrow> int \<Rightarrow> string \<Rightarrow> ('v \<Rightarrow> 'v \<Rightarrow> 'v) \<Rightarrow> 'v \<Rightarrow> (error + 'v) \<times> 'v cachePro" where
  "Compute c now k computeFunc defaultValue =
     (case items c k of
        None \<Rightarrow>
          (Inr defaultValue,
           c\<lparr>items := (items c)(k \<mapsto> \<lparr>Object = defaultValue, Expiration = 0\<rparr>)\<rparr>)
      | Some item \<Rightarrow>
          if Expiration item > 0 \<and> now > Expiration item then
            (Inr defaultValue,
             c\<lparr>items := (items c)(k \<mapsto> \<lparr>Object = defaultValue, Expiration = 0\<rparr>)\<rparr>)
          else
            (let currentValue = Object item;
                 newValue = computeFunc currentValue currentValue
             in (Inr newValue,
                 c\<lparr>items := (items c)(k \<mapsto> \<lparr>Object = newValue, Expiration = Expiration item\<rparr>)\<rparr>)))"

definition ComputeWithExpiration ::
  "'v cachePro \<Rightarrow> int \<Rightarrow> int \<Rightarrow> string \<Rightarrow> ('v \<Rightarrow> 'v \<Rightarrow> 'v) \<Rightarrow> 'v \<Rightarrow> int
     \<Rightarrow> (error + 'v) \<times> 'v cachePro" where
  "ComputeWithExpiration c now0 now1 k computeFunc defaultValue d =
     (let d = (if d = DefaultExpiration then defaultExpiration c else d);
          e = (if d > 0 then wrap64 (now0 + d) else 0)
      in case items c k of
           None \<Rightarrow>
             (Inr defaultValue,
              c\<lparr>items := (items c)(k \<mapsto> \<lparr>Object = defaultValue, Expiration = e\<rparr>)\<rparr>)
         | Some item \<Rightarrow>
             if Expiration item > 0 \<and> now1 > Expiration item then
               (Inr defaultValue,
                c\<lparr>items := (items c)(k \<mapsto> \<lparr>Object = defaultValue, Expiration = e\<rparr>)\<rparr>)
             else
               (let currentValue = Object item;
                    newValue = computeFunc currentValue currentValue
                in (Inr newValue,
                    c\<lparr>items := (items c)(k \<mapsto> \<lparr>Object = newValue, Expiration = e\<rparr>)\<rparr>)))"

definition ComputeTwoKeys ::
  "'v cachePro \<Rightarrow> int \<Rightarrow> int \<Rightarrow> int \<Rightarrow> string \<Rightarrow> string \<Rightarrow> ('v \<Rightarrow> 'v \<Rightarrow> 'v) \<Rightarrow> string \<Rightarrow> int
     \<Rightarrow> (error + 'v) \<times> 'v cachePro" where
  "ComputeTwoKeys c now0 now1 now2 k1 k2 computeFunc resultKey d =
     (let d = (if d = DefaultExpiration then defaultExpiration c else d);
          e = (if d > 0 then wrap64 (now0 + d) else 0)
      in case items c k1 of
           None \<Rightarrow> (Inl (KeyNotFound k1), c)
         | Some item1 \<Rightarrow>
             if Expiration item1 > 0 \<and> now1 > Expiration item1 then (Inl (KeyHasExpired k1), c)
             else
               (case items c k2 of
                  None \<Rightarrow> (Inl (KeyNotFound k2), c)
                | Some item2 \<Rightarrow>
                    if Expiration item2 > 0 \<and> now2 > Expiration item2 then
                      (Inl (KeyHasExpired k2), c)
                    else
                      (let value1 = Object item1;
                           value2 = Object item2;
                           result = computeFunc value1 value2
                       in (Inr result,
                           c\<lparr>items := (items c)(resultKey \<mapsto>
                                 \<lparr>Object = result, Expiration = e\<rparr>)\<rparr>))))"

subsection \<open>The expiry rule in the spec's words\<close>

text \<open>
  The specification calls an entry logically expired when its expiration instant is set
  and is at most the current time. An instant is set when it is positive: the zero value
  and every other value \<open>\<le> 0\<close> stand for "never".
\<close>

definition logically_expired_spec :: "int \<Rightarrow> 'v ItemPro \<Rightarrow> bool" where
  "logically_expired_spec t item = (Expiration item > 0 \<and> Expiration item \<le> t)"

text \<open>A cache with no callbacks, holding the given entries, used in the examples below.\<close>

definition cache_of :: "(string \<rightharpoonup> 'v ItemPro) \<Rightarrow> 'v cachePro" where
  "cache_of m = newCachePro 0 m"

section \<open>The sharded cache of sharded.go\<close>

subsection \<open>The hash\<close>

text \<open>
  A Go string is a sequence of bytes: a key is an \<open>8 word list\<close>, and \<^verbatim>\<open>uint32(k[i])\<close>
  is \<open>ucast\<close>. All arithmetic of \<^verbatim>\<open>djb33\<close> is on \<^verbatim>\<open>uint32\<close>, a \<open>32 word\<close>; the
  length of the key is truncated to 32 bits by \<^verbatim>\<open>uint32(len(k))\<close>. Go panics when a
  string is indexed out of range, when an integer is divided by zero and when \<^verbatim>\<open>make\<close>
  gets a negative length.
\<close>

datatype panic = IndexOutOfRange | DivideByZero | MakeLenOutOfRange

text \<open>
  One mixing step \<^verbatim>\<open>d = (d * 33) ^ uint32(k[i])\<close>; \<open>None\<close> is the panic of an index
  out of range.
\<close>

definition mix :: "8 word list \<Rightarrow> 32 word \<Rightarrow> 32 word \<Rightarrow> 32 word option" where
  "mix k d i = (if unat i < length k then Some ((d * 33) XOR ucast (k ! unat i)) else None)"

text \<open>
  The loop \<^verbatim>\<open>for i < l-4\<close>, which the source runs only under \<^verbatim>\<open>if l >= 4\<close>; the guard
  is repeated in the condition of the loop, where it makes the function total. The
  result is the pair of \<open>d\<close> and \<open>i\<close> after the loop.
\<close>

function djb33_loop :: "8 word list \<Rightarrow> 32 word \<Rightarrow> 32 word \<Rightarrow> 32 word \<Rightarrow> (32 word \<times> 32 word) option" where
  "djb33_loop k l d i =
     (if 4 \<le> l \<and> i < l - 4 then
        (case do { d \<leftarrow> mix k d i;
                   d \<leftarrow> mix k d (i + 1);
                   d \<leftarrow> mix k d (i + 2);
                   mix k d (i + 3) } of
           None \<Rightarrow> None
         | Some d' \<Rightarrow> djb33_loop k l d' (i + 4))
      else Some (d, i))"
  by pat_completeness auto
termination
proof (relation "measure (\<lambda>(k, l, d, i). unat l - unat i)")
  show "wf (measure (\<lambda>(k, l, d, i). unat l - unat i))" by simp
next
  fix k :: "8 word list" and l d i x2 :: "32 word"
  assume a: "4 \<le> l \<and> i < l - 4"
  then have "unat i + 4 < unat l" by unat_arith
  moreover from this have "unat (i + 4) = unat i + 4" by unat_arith
  ultimately show "((k, l, x2, i + 4), (k, l, d, i)) \<in> measure (\<lambda>(k, l, d, i). unat l - unat i)"
    by simp
qed

declare djb33_loop.simps [simp del]

text \<open>
  The \<^verbatim>\<open>switch l - i\<close> after the loop. A Go \<^verbatim>\<open>case\<close> does not fall through: the case
  1 is empty, and the cases 2, 3 and 4 mix one, two and three bytes.
\<close>

definition djb33_switch :: "8 word list \<Rightarrow> 32 word \<Rightarrow> 32 word \<Rightarrow> 32 word \<Rightarrow> 32 word option" where
  "djb33_switch k l d i =
     (if l - i = 1 then Some d
      else if l - i = 2 then mix k d i
      else if l - i = 3 then do { d \<leftarrow> mix k d i; mix k d (i + 1) }
      else if l - i = 4 then do { d \<leftarrow> mix k d i; d \<leftarrow> mix k d (i + 1); mix k d (i + 2) }
      else Some d)"

definition djb33 :: "32 word \<Rightarrow> 8 word list \<Rightarrow> 32 word option" where
  "djb33 seed k =
     (let l = (word_of_nat (length k) :: 32 word);
          d = 5381 + seed + l
      in do {
        (d, i) \<leftarrow> (if l \<ge> 4 then djb33_loop k l d 0 else Some (d, 0));
        d \<leftarrow> djb33_switch k l d i;
        Some (d XOR drop_bit 16 d)
      })"

subsection \<open>The hash and the route in the spec's words\<close>

text \<open>
  The specification describes the hash as a streaming mix: start from the seed and the
  length of the key, multiply the running hash by 33 and xor the byte in for each byte of
  the key in order, and finish with \<open>d XOR (d >> 16)\<close>. The route is that hash modulo
  the number of shards.
\<close>

definition step33 :: "32 word \<Rightarrow> 8 word \<Rightarrow> 32 word" where
  "step33 d b = (d * 33) XOR ucast b"

definition djb33_spec :: "32 word \<Rightarrow> 8 word list \<Rightarrow> 32 word" where
  "djb33_spec seed k =
     (let d = foldl step33 (5381 + seed + word_of_nat (length k)) k
      in d XOR drop_bit 16 d)"

definition route_spec :: "32 word \<Rightarrow> 32 word \<Rightarrow> 8 word list \<Rightarrow> nat" where
  "route_spec seed shard_count k = unat (djb33_spec seed k mod shard_count)"

subsection \<open>Shards\<close>

text \<open>
  Modelled from the spec: the struct \<^verbatim>\<open>cache\<close> of the non-generic cache, which is not
  among the sources. The Shard of the specification owns a default duration and a map
  of entries, the two fields that \<^verbatim>\<open>newShardedCache\<close> sets; an entry is a value with an
  expiration, as \<^verbatim>\<open>ItemPro\<close> is.
\<close>

record 'v cache =
  cache_defaultExpiration :: int
  cache_items :: "string \<rightharpoonup> 'v ItemPro"

text \<open>
  The struct \<^verbatim>\<open>shardedCache\<close> with its fields \<^verbatim>\<open>seed\<close>, \<^verbatim>\<open>m\<close> and \<^verbatim>\<open>cs\<close>; the janitor
  is left out.
\<close>

record 'v shardedCache =
  sc_seed :: "32 word"
  sc_m :: "32 word"
  sc_cs :: "'v cache list"

text \<open>The index expression \<^verbatim>\<open>djb33(sc.seed, k) % sc.m\<close> of \<^verbatim>\<open>bucket\<close>.\<close>

definition bucket_index :: "'v shardedCache \<Rightarrow> 8 word list \<Rightarrow> panic + nat" where
  "bucket_index sc k =
     (case djb33 (sc_seed sc) k of
        None \<Rightarrow> Inl IndexOutOfRange
      | Some h \<Rightarrow> if sc_m sc = 0 then Inl DivideByZero else Inr (unat (h mod sc_m sc)))"

definition bucket :: "'v shardedCache \<Rightarrow> 8 word list \<Rightarrow> panic + 'v cache" where
  "bucket sc k =
     (case bucket_index sc k of
        Inl e \<Rightarrow> Inl e
      | Inr i \<Rightarrow> if i < length (sc_cs sc) then Inr (sc_cs sc ! i) else Inl IndexOutOfRange)"

text \<open>
  \<^verbatim>\<open>newShardedCache\<close>: \<open>n\<close> is a Go \<^verbatim>\<open>int\<close>, \<open>rnd\<close> is the seed that the source draws at
  random, and \<^verbatim>\<open>uint32(n)\<close> is \<open>word_of_int n\<close>.
\<close>

definition newShardedCache :: "int \<Rightarrow> int \<Rightarrow> 32 word \<Rightarrow> panic + 'v shardedCache" where
  "newShardedCache n de rnd =
     (if n < 0 then Inl MakeLenOutOfRange
      else Inr \<lparr>sc_seed = rnd, sc_m = word_of_int n,
                sc_cs = replicate (nat n)
                  \<lparr>cache_defaultExpiration = de, cache_items = Map.empty\<rparr>\<rparr>)"

section \<open>Properties of the cache\<close>

subsection \<open>Auxiliary facts\<close>

lemma get_unlocked_eq: "get_unlocked c now k = Get c now k"
  by (simp add: get_unlocked_def Get_def)

lemma set_unlocked_eq: "set_unlocked c now k x d = Set c now k x d"
  by (simp add: set_unlocked_def Set_def)

lemma Get_delete_expired:
  "items c k' = Some v \<Longrightarrow> 0 < Expiration v \<Longrightarrow> Expiration v < now \<Longrightarrow> now \<le> t \<Longrightarrow>
   Get (fst (snd (delete c k'))) t k = Get c t k"
  by (auto simp: delete_def Get_def Let_def split: option.splits)

lemma Get_DeleteExpired_range:
  "now \<le> t \<Longrightarrow> Get (fst (DeleteExpired_range c now ks ev tr)) t k = Get c t k"
proof (induction ks arbitrary: c ev tr)
  case Nil
  then show ?case by simp
next
  case (Cons k' ks)
  show ?case
  proof (cases "items c k'")
    case None
    then show ?thesis using Cons by simp
  next
    case (Some v)
    show ?thesis
    proof (cases "0 < Expiration v \<and> Expiration v < now")
      case False
      then show ?thesis using Some Cons by auto
    next
      case True
      obtain ov c' tr' where d: "delete c k' = (ov, c', tr')"
        by (cases "delete c k'") auto
      have "Get c' t k = Get c t k"
        using Get_delete_expired [of c k' v now t k] Some True Cons.prems d by simp
      then show ?thesis
        using Some True d Cons.IH [OF Cons.prems, of c'] by (cases ov) auto
    qed
  qed
qed

lemma Get_DeleteExpired:
  "now \<le> t \<Longrightarrow> Get (fst (DeleteExpired c now ks)) t k = Get c t k"
  using Get_DeleteExpired_range [of now t c ks "[]" "[]" k]
  by (cases "DeleteExpired_range c now ks [] []") (simp add: DeleteExpired_def)

subsection \<open>Reading and expiry\<close>

text \<open>
  Claim C1, as the specification states it, fails at the instant of expiration: an
  entry whose expiration instant equals the current time is logically expired in the
  spec's words, and \<^verbatim>\<open>Get\<close> still returns it.
\<close>

theorem Get_at_expiration_instant:
  "items (cache_of [''k'' \<mapsto> \<lparr>Object = (1::nat), Expiration = 5\<rparr>]) ''k''
     = Some \<lparr>Object = 1, Expiration = 5\<rparr>
   \<and> logically_expired_spec 5 \<lparr>Object = (1::nat), Expiration = 5\<rparr>
   \<and> Get (cache_of [''k'' \<mapsto> \<lparr>Object = (1::nat), Expiration = 5\<rparr>]) 5 ''k'' = Some 1"
  by (simp add: cache_of_def newCachePro_def logically_expired_spec_def Get_def)


text \<open>
  Claim C1, amended: for every cache state, key and current time \<open>t\<close>, \<^verbatim>\<open>Get\<close>
  returns absent exactly when the key is not in the map or the stored entry has a set
  (positive) expiration instant that lies strictly before \<open>t\<close>. This holds whether or not
  \<^verbatim>\<open>DeleteExpired\<close> has physically removed entries: a sweep at a time \<open>now \<le> t\<close>, in any
  order of the keys, does not change what \<^verbatim>\<open>Get\<close> returns at \<open>t\<close>.
\<close>

theorem Get_absent_iff_strictly_past:
  "(Get c t k = None) =
     (items c k = None \<or> (\<exists>item. items c k = Some item \<and> 0 < Expiration item \<and> Expiration item < t))
   \<and> (now \<le> t \<longrightarrow> Get (fst (DeleteExpired c now ks)) t k = Get c t k)"
  by (auto simp: Get_DeleteExpired) (auto simp: Get_def split: option.splits if_splits)

theorem Get_absent_iff_strictly_past_witness:
  "(20::int) \<le> 25
   \<and> Get (fst (DeleteExpired
        (cache_of [''a'' \<mapsto> \<lparr>Object = 1::nat, Expiration = 0\<rparr>,
                   ''b'' \<mapsto> \<lparr>Object = 2, Expiration = 20\<rparr>]) 20 [''a'', ''b''])) 25 ''b'' = None
   \<and> Get (cache_of [''a'' \<mapsto> \<lparr>Object = 1::nat, Expiration = 0\<rparr>,
                   ''b'' \<mapsto> \<lparr>Object = 2, Expiration = 20\<rparr>]) 25 ''a'' = Some 1"
  using Get_absent_iff_strictly_past
    [of "cache_of [''a'' \<mapsto> \<lparr>Object = 1::nat, Expiration = 0\<rparr>,
                   ''b'' \<mapsto> \<lparr>Object = 2, Expiration = 20\<rparr>]" 25 "''b''" 20 "[''a'', ''b'']"]
  by (simp add: cache_of_def newCachePro_def Get_def)


text \<open>
  Claim C8: \<^verbatim>\<open>GetWithExpiration\<close> reports found exactly when \<^verbatim>\<open>Get\<close> does, at the same
  clock reading; when found it returns the value \<^verbatim>\<open>Get\<close> returns, with the entry's
  expiration instant when one is set and the zero time otherwise.
\<close>

theorem GetWithExpiration_as_Get:
  "(GetWithExpiration c t k = None) = (Get c t k = None)
   \<and> (items c k = Some item \<and> Get c t k = Some v \<longrightarrow>
        GetWithExpiration c t k =
          Some (v, if Expiration item > 0 then Some (Expiration item) else None))"
  by (auto simp: GetWithExpiration_def Get_def split: option.splits if_splits)

theorem GetWithExpiration_as_Get_witness:
  "items (cache_of [''a'' \<mapsto> \<lparr>Object = 1::nat, Expiration = 0\<rparr>,
                     ''b'' \<mapsto> \<lparr>Object = 2, Expiration = 20\<rparr>]) ''b''
     = Some \<lparr>Object = 2, Expiration = 20\<rparr>
   \<and> Get (cache_of [''a'' \<mapsto> \<lparr>Object = 1::nat, Expiration = 0\<rparr>,
                   ''b'' \<mapsto> \<lparr>Object = 2, Expiration = 20\<rparr>]) 15 ''b'' = Some 2
   \<and> GetWithExpiration (cache_of [''a'' \<mapsto> \<lparr>Object = 1::nat, Expiration = 0\<rparr>,
                   ''b'' \<mapsto> \<lparr>Object = 2, Expiration = 20\<rparr>]) 15 ''b'' = Some (2, Some 20)
   \<and> Get (cache_of [''a'' \<mapsto> \<lparr>Object = 1::nat, Expiration = 0\<rparr>,
                   ''b'' \<mapsto> \<lparr>Object = 2, Expiration = 20\<rparr>]) 15 ''a'' = Some 1
   \<and> GetWithExpiration (cache_of [''a'' \<mapsto> \<lparr>Object = 1::nat, Expiration = 0\<rparr>,
                   ''b'' \<mapsto> \<lparr>Object = 2, Expiration = 20\<rparr>]) 15 ''a'' = Some (1, None)"
  using GetWithExpiration_as_Get
      [of "cache_of [''a'' \<mapsto> \<lparr>Object = 1::nat, Expiration = 0\<rparr>,
                     ''b'' \<mapsto> \<lparr>Object = 2, Expiration = 20\<rparr>]" 15 "''b''"
          "\<lparr>Object = 2::nat, Expiration = 20\<rparr>" 2]
    GetWithExpiration_as_Get
      [of "cache_of [''a'' \<mapsto> \<lparr>Object = 1::nat, Expiration = 0\<rparr>,
                     ''b'' \<mapsto> \<lparr>Object = 2, Expiration = 20\<rparr>]" 15 "''a''"
          "\<lparr>Object = 1::nat, Expiration = 0\<rparr>" 1]
  by (simp add: cache_of_def newCachePro_def Get_def)


subsection \<open>Writing\<close>

text \<open>
  Claim C10: \<^verbatim>\<open>Set\<close> with any negative duration, or with the duration
  \<^verbatim>\<open>DefaultExpiration\<close> in a cache whose default is \<open>\<le> 0\<close>, stores the value with
  expiration 0; \<^verbatim>\<open>Get\<close> returns that value at every time, in the state after the write
  and in every state in which the entry under the key is still the one written. A
  default of 0 given to the constructor becomes \<open>- 1\<close>.
\<close>

theorem Set_nonpositive_never_expires:
  "(d < 0 \<or> (d = DefaultExpiration \<and> defaultExpiration c \<le> 0) \<longrightarrow>
      items (Set c now k x d) k = Some \<lparr>Object = x, Expiration = 0\<rparr>
      \<and> Get (Set c now k x d) t k = Some x
      \<and> (items c' k = items (Set c now k x d) k \<longrightarrow> Get c' t k = Some x))
   \<and> defaultExpiration (newCachePro 0 m) = - 1"
  by (auto simp: Set_def Get_def Let_def DefaultExpiration_def newCachePro_def)

theorem Set_nonpositive_never_expires_witness:
  "(- 5 :: int) < 0
   \<and> items (Set (cache_of Map.empty) 100 ''k'' (7::nat) (- 5)) ''k''
       = Some \<lparr>Object = 7, Expiration = 0\<rparr>
   \<and> Get (Set (cache_of Map.empty) 100 ''k'' (7::nat) (- 5)) 1000000 ''k'' = Some 7
   \<and> defaultExpiration (cache_of Map.empty :: nat cachePro) \<le> 0
   \<and> items (Set (cache_of Map.empty) 100 ''k'' (7::nat) DefaultExpiration) ''k''
       = Some \<lparr>Object = 7, Expiration = 0\<rparr>
   \<and> Get (Set (Set (cache_of Map.empty) 100 ''k'' (7::nat) DefaultExpiration) 200 ''j'' 8 50)
        1000000 ''k'' = Some 7"
  using Set_nonpositive_never_expires
      [of "- 5" "cache_of Map.empty :: nat cachePro" 100 "''k''" 7 1000000
          "cache_of Map.empty :: nat cachePro" Map.empty]
    Set_nonpositive_never_expires
      [of DefaultExpiration "cache_of Map.empty :: nat cachePro" 100 "''k''" 7 1000000
          "Set (Set (cache_of Map.empty) 100 ''k'' (7::nat) DefaultExpiration) 200 ''j'' 8 50"
          Map.empty]
  by (simp add: cache_of_def newCachePro_def Set_def DefaultExpiration_def)


text \<open>
  Claim C5, read with the expiry rule of the specification, fails at the instant of
  expiration: an entry whose expiration instant equals the current time is logically
  expired in the spec's words, so that the claim has \<^verbatim>\<open>Add\<close> succeed and behave as
  \<^verbatim>\<open>Set\<close>; the code fails with "already exists" and leaves the entry as it was.
\<close>

theorem Add_at_expiration_instant:
  "items (cache_of [''k'' \<mapsto> \<lparr>Object = 1::int, Expiration = 100\<rparr>]) ''k''
     = Some \<lparr>Object = 1, Expiration = 100\<rparr>
   \<and> logically_expired_spec 100 \<lparr>Object = 1::int, Expiration = 100\<rparr>
   \<and> Add (cache_of [''k'' \<mapsto> \<lparr>Object = 1::int, Expiration = 100\<rparr>]) 100 100 ''k'' 2 30
       = (Some (ItemAlreadyExists ''k''), cache_of [''k'' \<mapsto> \<lparr>Object = 1, Expiration = 100\<rparr>])
   \<and> Add (cache_of [''k'' \<mapsto> \<lparr>Object = 1::int, Expiration = 100\<rparr>]) 100 100 ''k'' 2 30
       \<noteq> (None, Set (cache_of [''k'' \<mapsto> \<lparr>Object = 1::int, Expiration = 100\<rparr>]) 100 ''k'' 2 30)"
  by (simp add: cache_of_def newCachePro_def logically_expired_spec_def Add_def get_unlocked_def)

text \<open>
  Claim C5, amended: when the key holds an entry that \<^verbatim>\<open>get\<close> finds (one whose
  expiration instant is not set, or is not strictly before the current time),
  \<^verbatim>\<open>Add\<close> fails with the error "already exists" and returns the state unchanged; when
  the key is absent or its entry has a set expiration instant strictly before the
  current time, \<^verbatim>\<open>Add\<close> returns no error and the state that \<^verbatim>\<open>Set\<close> produces at the
  clock reading of the write.
\<close>

theorem Add_AlreadyExists_or_set:
  "(Get c now1 k = Some v \<longrightarrow> Add c now1 now2 k x d = (Some (ItemAlreadyExists k), c))
   \<and> (Get c now1 k = None \<longrightarrow> Add c now1 now2 k x d = (None, Set c now2 k x d))"
  by (simp add: Add_def get_unlocked_eq set_unlocked_eq)

theorem Add_AlreadyExists_or_set_witness:
  "Get (cache_of [''k'' \<mapsto> \<lparr>Object = 1::nat, Expiration = 50\<rparr>]) 10 ''k'' = Some 1
   \<and> Add (cache_of [''k'' \<mapsto> \<lparr>Object = 1::nat, Expiration = 50\<rparr>]) 10 11 ''k'' 2 30
       = (Some (ItemAlreadyExists ''k''), cache_of [''k'' \<mapsto> \<lparr>Object = 1, Expiration = 50\<rparr>])
   \<and> Get (cache_of [''k'' \<mapsto> \<lparr>Object = 1::nat, Expiration = 50\<rparr>]) 60 ''k'' = None
   \<and> Add (cache_of [''k'' \<mapsto> \<lparr>Object = 1::nat, Expiration = 50\<rparr>]) 60 61 ''k'' 2 30
       = (None, cache_of [''k'' \<mapsto> \<lparr>Object = 2, Expiration = 91\<rparr>])"
  using Add_AlreadyExists_or_set
      [of "cache_of [''k'' \<mapsto> \<lparr>Object = 1::nat, Expiration = 50\<rparr>]" 10 "''k''" 1 11 2 30]
    Add_AlreadyExists_or_set
      [of "cache_of [''k'' \<mapsto> \<lparr>Object = 1::nat, Expiration = 50\<rparr>]" 60 "''k''" _ 61 2 30]
  by (simp add: cache_of_def newCachePro_def Get_def Set_def DefaultExpiration_def wrap64_def)


subsection \<open>Computing\<close>

text \<open>
  Claim C3, read with the expiry rule of the specification, fails at the instant of
  expiration: an entry whose expiration instant equals the current time is logically
  expired in the spec's words, so that the claim has \<^verbatim>\<open>Compute\<close> store the default
  with no expiration; the code stores \<open>f current current\<close> and keeps the expiration
  instant.
\<close>

theorem Compute_at_expiration_instant:
  "items (cache_of [''value'' \<mapsto> \<lparr>Object = 5::int, Expiration = 100\<rparr>]) ''value''
     = Some \<lparr>Object = 5, Expiration = 100\<rparr>
   \<and> logically_expired_spec 100 \<lparr>Object = 5::int, Expiration = 100\<rparr>
   \<and> Compute (cache_of [''value'' \<mapsto> \<lparr>Object = 5::int, Expiration = 100\<rparr>]) 100 ''value'' (+) 42
       = (Inr 10, cache_of [''value'' \<mapsto> \<lparr>Object = 10, Expiration = 100\<rparr>])
   \<and> Compute (cache_of [''value'' \<mapsto> \<lparr>Object = 5::int, Expiration = 100\<rparr>]) 100 ''value'' (+) 42
       \<noteq> (Inr 42, cache_of [''value'' \<mapsto> \<lparr>Object = 42, Expiration = 0\<rparr>])"
  by (simp add: cache_of_def newCachePro_def logically_expired_spec_def Compute_def)

text \<open>
  Claim C3, amended: when the key holds an entry that \<^verbatim>\<open>get\<close> finds (one whose
  expiration instant is not set, or is not strictly before the current time),
  \<^verbatim>\<open>Compute\<close> stores \<open>f current current\<close> with the expiration instant the entry had,
  and returns it; when the key is absent or its entry has a set expiration instant
  strictly before the current time, \<^verbatim>\<open>Compute\<close> stores the default with expiration 0,
  returns it, and \<^verbatim>\<open>Get\<close> finds it at every time.
\<close>

theorem Compute_live_or_default:
  "(items c k = Some item \<and> Get c now k = Some cur \<longrightarrow>
      cur = Object item \<and>
      Compute c now k f dv =
        (Inr (f cur cur),
         c\<lparr>items := (items c)(k \<mapsto> \<lparr>Object = f cur cur, Expiration = Expiration item\<rparr>)\<rparr>))
   \<and> (Get c now k = None \<longrightarrow>
        Compute c now k f dv =
          (Inr dv, c\<lparr>items := (items c)(k \<mapsto> \<lparr>Object = dv, Expiration = 0\<rparr>)\<rparr>)
        \<and> Get (snd (Compute c now k f dv)) t k = Some dv)"
  by (auto simp: Get_def Compute_def Let_def split: option.splits if_splits)

theorem Compute_live_or_default_witness:
  "Get (cache_of Map.empty) 100 ''sum'' = (None :: int option)
   \<and> Compute (cache_of Map.empty) 100 ''sum'' (+) (10::int)
       = (Inr 10, cache_of [''sum'' \<mapsto> \<lparr>Object = 10, Expiration = 0\<rparr>])
   \<and> Get (cache_of [''value'' \<mapsto> \<lparr>Object = 5::int, Expiration = 0\<rparr>]) 100 ''value'' = Some 5
   \<and> Compute (cache_of [''value'' \<mapsto> \<lparr>Object = 5::int, Expiration = 0\<rparr>]) 100 ''value'' (+) 0
       = (Inr 10, cache_of [''value'' \<mapsto> \<lparr>Object = 10, Expiration = 0\<rparr>])"
  using Compute_live_or_default [of "cache_of Map.empty" "''sum''" _ 100 _ "(+)" "10::int" 0]
    Compute_live_or_default [of "cache_of [''value'' \<mapsto> \<lparr>Object = 5::int, Expiration = 0\<rparr>]"
      "''value''" "\<lparr>Object = 5::int, Expiration = 0\<rparr>" 100 5 "(+)" 0 0]
  by (simp add: cache_of_def newCachePro_def Get_def)


text \<open>
  Claim C4, read with the expiry rule of the specification, fails at the instant of
  expiration: a source key whose expiration instant equals the current time is logically
  expired in the spec's words, so that the claim has \<^verbatim>\<open>ComputeTwoKeys\<close> fail and leave
  the state unchanged; the code computes the result and creates the result key.
\<close>

theorem ComputeTwoKeys_at_expiration_instant:
  "items (cache_of [''a'' \<mapsto> \<lparr>Object = 1::int, Expiration = 100\<rparr>,
                     ''b'' \<mapsto> \<lparr>Object = 2, Expiration = 0\<rparr>]) ''a''
     = Some \<lparr>Object = 1, Expiration = 100\<rparr>
   \<and> logically_expired_spec 100 \<lparr>Object = 1::int, Expiration = 100\<rparr>
   \<and> ComputeTwoKeys (cache_of [''a'' \<mapsto> \<lparr>Object = 1::int, Expiration = 100\<rparr>,
                              ''b'' \<mapsto> \<lparr>Object = 2, Expiration = 0\<rparr>])
        100 100 100 ''a'' ''b'' (+) ''result'' (- 1)
       = (Inr 3, cache_of [''a'' \<mapsto> \<lparr>Object = 1, Expiration = 100\<rparr>,
                           ''b'' \<mapsto> \<lparr>Object = 2, Expiration = 0\<rparr>,
                           ''result'' \<mapsto> \<lparr>Object = 3, Expiration = 0\<rparr>])
   \<and> items (snd (ComputeTwoKeys (cache_of [''a'' \<mapsto> \<lparr>Object = 1::int, Expiration = 100\<rparr>,
                              ''b'' \<mapsto> \<lparr>Object = 2, Expiration = 0\<rparr>])
        100 100 100 ''a'' ''b'' (+) ''result'' (- 1))) ''result''
       = Some \<lparr>Object = 3, Expiration = 0\<rparr>"
  by (simp add: cache_of_def newCachePro_def logically_expired_spec_def ComputeTwoKeys_def
      DefaultExpiration_def)

text \<open>
  Claim C4, amended: \<^verbatim>\<open>ComputeTwoKeys\<close> fails with a not-found error ("not found" or
  "has expired") and leaves the state unchanged when the first key is absent or has a
  set expiration instant strictly before the current time, and when \<^verbatim>\<open>get\<close> finds the
  first and the second is absent or has such an instant; when \<^verbatim>\<open>get\<close> finds both, it
  returns \<open>f v1 v2\<close> and the state is the one \<^verbatim>\<open>Set\<close> produces for the result key, that
  value and the given duration.
\<close>

theorem ComputeTwoKeys_NotFound_or_stored:
  "(Get c now1 k1 = None \<longrightarrow>
      ComputeTwoKeys c now0 now1 now2 k1 k2 f rk d =
        (Inl (if items c k1 = None then KeyNotFound k1 else KeyHasExpired k1), c))
   \<and> (Get c now1 k1 = Some v1 \<and> Get c now2 k2 = None \<longrightarrow>
        ComputeTwoKeys c now0 now1 now2 k1 k2 f rk d =
          (Inl (if items c k2 = None then KeyNotFound k2 else KeyHasExpired k2), c))
   \<and> (Get c now1 k1 = Some v1 \<and> Get c now2 k2 = Some v2 \<longrightarrow>
        ComputeTwoKeys c now0 now1 now2 k1 k2 f rk d =
          (Inr (f v1 v2), Set c now0 rk (f v1 v2) d))"
  by (auto simp: Get_def ComputeTwoKeys_def Set_def Let_def split: option.splits if_splits)

theorem ComputeTwoKeys_NotFound_or_stored_witness:
  "Get (cache_of [''exists'' \<mapsto> \<lparr>Object = ''Hello'', Expiration = 0\<rparr>]) 7 ''nonexistent'' = None
   \<and> ComputeTwoKeys (cache_of [''exists'' \<mapsto> \<lparr>Object = ''Hello'', Expiration = 0\<rparr>])
        5 7 9 ''nonexistent'' ''exists'' (\<lambda>a b. a @ '' '' @ b) ''result'' 0
       = (Inl (KeyNotFound ''nonexistent''),
          cache_of [''exists'' \<mapsto> \<lparr>Object = ''Hello'', Expiration = 0\<rparr>])
   \<and> Get (cache_of [''exists'' \<mapsto> \<lparr>Object = ''Hello'', Expiration = 0\<rparr>]) 7 ''exists'' = Some ''Hello''
   \<and> Get (cache_of [''exists'' \<mapsto> \<lparr>Object = ''Hello'', Expiration = 0\<rparr>]) 9 ''nonexistent'' = None
   \<and> ComputeTwoKeys (cache_of [''exists'' \<mapsto> \<lparr>Object = ''Hello'', Expiration = 0\<rparr>])
        5 7 9 ''exists'' ''nonexistent'' (\<lambda>a b. a @ '' '' @ b) ''result'' 0
       = (Inl (KeyNotFound ''nonexistent''),
          cache_of [''exists'' \<mapsto> \<lparr>Object = ''Hello'', Expiration = 0\<rparr>])
   \<and> Get (cache_of [''first'' \<mapsto> \<lparr>Object = ''Hello'', Expiration = 0\<rparr>,
                   ''second'' \<mapsto> \<lparr>Object = ''World'', Expiration = 0\<rparr>]) 9 ''second'' = Some ''World''
   \<and> ComputeTwoKeys (cache_of [''first'' \<mapsto> \<lparr>Object = ''Hello'', Expiration = 0\<rparr>,
                              ''second'' \<mapsto> \<lparr>Object = ''World'', Expiration = 0\<rparr>])
        5 7 9 ''first'' ''second'' (\<lambda>a b. a @ '' '' @ b) ''message'' 0
       = (Inr ''Hello World'',
          cache_of [''first'' \<mapsto> \<lparr>Object = ''Hello'', Expiration = 0\<rparr>,
                    ''second'' \<mapsto> \<lparr>Object = ''World'', Expiration = 0\<rparr>,
                    ''message'' \<mapsto> \<lparr>Object = ''Hello World'', Expiration = 0\<rparr>])"
  using ComputeTwoKeys_NotFound_or_stored
      [of "cache_of [''exists'' \<mapsto> \<lparr>Object = ''Hello'', Expiration = 0\<rparr>]" 7 "''nonexistent''"
          5 9 "''exists''" "\<lambda>a b. a @ '' '' @ b" "''result''" 0]
    ComputeTwoKeys_NotFound_or_stored
      [of "cache_of [''exists'' \<mapsto> \<lparr>Object = ''Hello'', Expiration = 0\<rparr>]" 7 "''exists''"
          5 9 "''nonexistent''" "\<lambda>a b. a @ '' '' @ b" "''result''" 0 "''Hello''"]
    ComputeTwoKeys_NotFound_or_stored
      [of "cache_of [''first'' \<mapsto> \<lparr>Object = ''Hello'', Expiration = 0\<rparr>,
                     ''second'' \<mapsto> \<lparr>Object = ''World'', Expiration = 0\<rparr>]" 7 "''first''"
          5 9 "''second''" "\<lambda>a b. a @ '' '' @ b" "''message''" 0 "''Hello''" "''World''"]
  by (simp add: cache_of_def newCachePro_def Get_def Set_def DefaultExpiration_def)


subsection \<open>Deleting and flushing\<close>

text \<open>
  Claim C6: for a key in the map, expired or not, \<^verbatim>\<open>Delete\<close> removes the entry;
  the destructor, when configured, is called once with the removed value before the map
  is changed, and the eviction callback, when configured, is called with the key and the
  value after the map is changed. For a key not in the map the state is unchanged and no
  callback is called: the only event is the builtin \<^verbatim>\<open>delete\<close>, which does nothing.
\<close>

theorem Delete_present_or_absent:
  "(items c k = Some item \<longrightarrow>
      Delete c k =
        (c\<lparr>items := (items c)(k := None)\<rparr>,
         (if delFunc c then [DelFuncCall (Object item)] else [])
           @ [MapDelete k]
           @ (if onEvicted c then [OnEvictedCall k (Object item)] else [])))
   \<and> (items c k = None \<longrightarrow> Delete c k = (c, [MapDelete k]))"
  by (auto simp: Delete_def delete_def Let_def fun_upd_idem_iff)

theorem Delete_present_or_absent_witness:
  "items ((cache_of [''k'' \<mapsto> \<lparr>Object = 1::nat, Expiration = 50\<rparr>])
            \<lparr>onEvicted := True, delFunc := True\<rparr>) ''k'' = Some \<lparr>Object = 1, Expiration = 50\<rparr>
   \<and> Get ((cache_of [''k'' \<mapsto> \<lparr>Object = 1::nat, Expiration = 50\<rparr>])
            \<lparr>onEvicted := True, delFunc := True\<rparr>) 60 ''k'' = None
   \<and> Delete ((cache_of [''k'' \<mapsto> \<lparr>Object = 1::nat, Expiration = 50\<rparr>])
            \<lparr>onEvicted := True, delFunc := True\<rparr>) ''k''
       = ((cache_of Map.empty)\<lparr>onEvicted := True, delFunc := True\<rparr>,
          [DelFuncCall 1, MapDelete ''k'', OnEvictedCall ''k'' 1])
   \<and> items ((cache_of [''k'' \<mapsto> \<lparr>Object = 1::nat, Expiration = 50\<rparr>])
            \<lparr>onEvicted := True, delFunc := True\<rparr>) ''j'' = None
   \<and> Delete ((cache_of [''k'' \<mapsto> \<lparr>Object = 1::nat, Expiration = 50\<rparr>])
            \<lparr>onEvicted := True, delFunc := True\<rparr>) ''j''
       = ((cache_of [''k'' \<mapsto> \<lparr>Object = 1::nat, Expiration = 50\<rparr>])
            \<lparr>onEvicted := True, delFunc := True\<rparr>, [MapDelete ''j''])"
  using Delete_present_or_absent
      [of "(cache_of [''k'' \<mapsto> \<lparr>Object = 1::nat, Expiration = 50\<rparr>])
             \<lparr>onEvicted := True, delFunc := True\<rparr>" "''k''" "\<lparr>Object = 1::nat, Expiration = 50\<rparr>"]
    Delete_present_or_absent
      [of "(cache_of [''k'' \<mapsto> \<lparr>Object = 1::nat, Expiration = 50\<rparr>])
             \<lparr>onEvicted := True, delFunc := True\<rparr>" "''j''"]
  by (simp add: cache_of_def newCachePro_def Get_def)


text \<open>
  Claim C7: \<^verbatim>\<open>Flush\<close> replaces the map by an empty one and calls neither callback;
  afterwards \<^verbatim>\<open>ItemCount\<close> is 0 and the default expiration and both callbacks are what
  they were.
\<close>

theorem Flush_empties:
  "Flush c = (c\<lparr>items := Map.empty\<rparr>, [])
   \<and> ItemCount (fst (Flush c)) = 0
   \<and> defaultExpiration (fst (Flush c)) = defaultExpiration c
   \<and> onEvicted (fst (Flush c)) = onEvicted c
   \<and> delFunc (fst (Flush c)) = delFunc c"
  by (simp add: Flush_def ItemCount_def)

section \<open>Properties of the sharded cache\<close>

subsection \<open>What the hash computes\<close>

lemma mix_step33: "unat i < length k \<Longrightarrow> mix k d i = Some (step33 d (k ! unat i))"
  by (simp add: mix_def step33_def)

lemma take_drop_nths:
  "i + n \<le> length k \<Longrightarrow> take n (drop i k) = map (\<lambda>j. k ! (i + j)) [0..<n]"
  by (simp add: list_eq_iff_nth_eq)

lemma unat_add_small:
  fixes i j :: "32 word"
  assumes "unat i + unat j < 2 ^ 32"
  shows "unat (i + j) = unat i + unat j"
  using assms unat_add_lem [of i j] by simp

lemma mix4:
  assumes "unat i + 4 \<le> length k" "unat i + 4 < 2 ^ 32"
  shows "do { d \<leftarrow> mix k d i; d \<leftarrow> mix k d (i + 1); d \<leftarrow> mix k d (i + 2); mix k d (i + 3) }
         = Some (foldl step33 d (take 4 (drop (unat i) k)))"
proof -
  have u1: "unat (i + 1) = unat i + 1"
    using assms(2) unat_add_small [of i 1] by simp
  have u2: "unat (i + 2) = unat i + 2"
    using assms(2) unat_add_small [of i 2] by simp
  have u3: "unat (i + 3) = unat i + 3"
    using assms(2) unat_add_small [of i 3] by simp
  have "take 4 (drop (unat i) k) = map (\<lambda>j. k ! (unat i + j)) [0..<4]"
    using assms(1) by (rule take_drop_nths)
  then have t: "take 4 (drop (unat i) k)
      = [k ! unat i, k ! (unat i + 1), k ! (unat i + 2), k ! (unat i + 3)]"
    by (simp add: upt_rec numeral_3_eq_3)
  show ?thesis
    using assms(1) by (simp add: mix_step33 u1 u2 u3 t)
qed


lemma loop_guard_nat:
  fixes i l :: "32 word"
  assumes "4 \<le> l" "i < l - 4"
  shows "unat i + 4 < unat l"
proof -
  have "unat (l - 4) = unat l - unat (4 :: 32 word)"
    using assms(1) by (rule unat_sub)
  moreover have "unat i < unat (l - 4)"
    using assms(2) by (simp add: word_less_nat_alt)
  ultimately show ?thesis by simp
qed

lemma djb33_loop_char:
  assumes len: "unat l \<le> length k"
  shows "\<exists>i'. djb33_loop k l d i
            = Some (foldl step33 d (take (unat i' - unat i) (drop (unat i) k)), i')
          \<and> unat i \<le> unat i' \<and> (unat i < unat l \<longrightarrow> unat i' < unat l)
          \<and> \<not> (4 \<le> l \<and> i' < l - 4)"
  using len
proof (induction k l d i rule: djb33_loop.induct)
  case (1 k l d i)
  show ?case
  proof (cases "4 \<le> l \<and> i < l - 4")
    case False
    then have "djb33_loop k l d i = Some (d, i)"
      by (subst djb33_loop.simps) auto
    then show ?thesis using False by (intro exI [of _ i]) simp
  next
    case True
    then have lt: "unat i + 4 < unat l"
      using loop_guard_nat [of l i] by simp
    have bound: "unat l < 2 ^ 32"
      using unsigned_less [of l] by simp
    have u4: "unat (i + 4) = unat i + 4"
      using lt bound unat_add_small [of i 4] by simp
    let ?d4 = "foldl step33 d (take 4 (drop (unat i) k))"
    have m: "do { d \<leftarrow> mix k d i; d \<leftarrow> mix k d (i + 1); d \<leftarrow> mix k d (i + 2); mix k d (i + 3) }
               = Some ?d4"
      using lt bound "1.prems" by (intro mix4) simp_all
    obtain i' where
      r: "djb33_loop k l ?d4 (i + 4)
            = Some (foldl step33 ?d4 (take (unat i' - unat (i + 4)) (drop (unat (i + 4)) k)), i')"
      and le: "unat (i + 4) \<le> unat i'"
      and lt': "unat (i + 4) < unat l \<longrightarrow> unat i' < unat l"
      and ex: "\<not> (4 \<le> l \<and> i' < l - 4)"
      using "1.IH" [OF True m "1.prems"] by blast
    have unf: "djb33_loop k l d i = djb33_loop k l ?d4 (i + 4)"
      using True m by (subst djb33_loop.simps) simp
    have "take (4 + (unat i' - unat (i + 4))) (drop (unat i) k)
            = take 4 (drop (unat i) k) @ take (unat i' - unat (i + 4)) (drop 4 (drop (unat i) k))"
      by (rule take_add)
    moreover have "4 + (unat i' - unat (i + 4)) = unat i' - unat i"
      using le u4 by simp
    moreover have "drop 4 (drop (unat i) k) = drop (unat (i + 4)) k"
      using u4 by (simp add: add.commute)
    ultimately have
      "foldl step33 d (take (unat i' - unat i) (drop (unat i) k))
         = foldl step33 ?d4 (take (unat i' - unat (i + 4)) (drop (unat (i + 4)) k))"
      by simp
    then show ?thesis
      using unf r le lt' ex u4 lt by (intro exI [of _ i']) simp
  qed
qed

lemma djb33_switch_char:
  assumes len: "unat l \<le> length k" and il: "unat i \<le> unat l" and r4: "unat l - unat i \<le> 4"
  shows "djb33_switch k l d i
           = Some (foldl step33 d (take (unat l - unat i - 1) (drop (unat i) k)))"
proof -
  have sub: "unat (l - i) = unat l - unat i"
    using il by (intro unat_sub) (simp add: word_le_nat_alt)
  have bound: "unat l < 2 ^ 32"
    using unsigned_less [of l] by simp
  have eqs: "(l - i = 1) = (unat l - unat i = 1)" "(l - i = 2) = (unat l - unat i = 2)"
    "(l - i = 3) = (unat l - unat i = 3)" "(l - i = 4) = (unat l - unat i = 4)"
    using sub by (simp_all add: word_unat_eq_iff)
  consider "unat l - unat i = 0" | "unat l - unat i = 1" | "unat l - unat i = 2"
    | "unat l - unat i = 3" | "unat l - unat i = 4"
    using r4 by linarith
  then show ?thesis
  proof cases
    case 1
    then show ?thesis by (simp add: djb33_switch_def eqs)
  next
    case 2
    then show ?thesis by (simp add: djb33_switch_def eqs)
  next
    case 3
    then have t: "take 1 (drop (unat i) k) = map (\<lambda>j. k ! (unat i + j)) [0..<1]"
      using len by (intro take_drop_nths) simp
    show ?thesis using 3 len t by (simp add: djb33_switch_def eqs mix_step33)
  next
    case 4
    have u1: "unat (i + 1) = unat i + 1"
      using 4 bound unat_add_small [of i 1] by simp
    have t: "take 2 (drop (unat i) k) = map (\<lambda>j. k ! (unat i + j)) [0..<2]"
      using 4 len by (intro take_drop_nths) simp
    show ?thesis using 4 len t u1 by (simp add: djb33_switch_def eqs mix_step33 upt_rec)
  next
    case 5
    have u1: "unat (i + 1) = unat i + 1"
      using 5 bound unat_add_small [of i 1] by simp
    have u2: "unat (i + 2) = unat i + 2"
      using 5 bound unat_add_small [of i 2] by simp
    have t: "take 3 (drop (unat i) k) = map (\<lambda>j. k ! (unat i + j)) [0..<3]"
      using 5 len by (intro take_drop_nths) simp
    show ?thesis using 5 len t u1 u2
      by (simp add: djb33_switch_def eqs mix_step33 upt_rec numeral_2_eq_2)
  qed
qed

lemma loop_exit_nat:
  fixes i l :: "32 word"
  assumes "4 \<le> l" "\<not> i < l - 4"
  shows "unat l - 4 \<le> unat i"
proof -
  have "unat (l - 4) = unat l - unat (4 :: 32 word)"
    using assms(1) by (rule unat_sub)
  moreover have "\<not> unat i < unat (l - 4)"
    using assms(2) by (simp add: word_less_nat_alt)
  ultimately show ?thesis by simp
qed

lemma unat_length_le: "unat (word_of_nat (length k) :: 32 word) \<le> length k"
  by (simp add: unat_of_nat)

text \<open>
  What the code computes: the streaming mix over the first \<open>unat l - 1\<close> bytes of the
  key, where \<open>l\<close> is the length truncated to 32 bits. In particular \<^verbatim>\<open>djb33\<close> never
  panics.
\<close>

lemma djb33_char:
  "djb33 seed k =
     Some (let l = (word_of_nat (length k) :: 32 word);
               d = foldl step33 (5381 + seed + l) (take (unat l - 1) k)
           in d XOR drop_bit 16 d)"
proof -
  define l :: "32 word" where "l = word_of_nat (length k)"
  define d0 :: "32 word" where "d0 = 5381 + seed + l"
  have len: "unat l \<le> length k"
    unfolding l_def by (rule unat_length_le)
  have "\<exists>d i. (if l \<ge> 4 then djb33_loop k l d0 0 else Some (d0, 0)) = Some (d, i)
          \<and> djb33_switch k l d i = Some (foldl step33 d0 (take (unat l - 1) k))"
  proof (cases "4 \<le> l")
    case False
    then have small: "unat l < 4"
      by (simp add: word_le_nat_alt)
    have "djb33_switch k l d0 0
            = Some (foldl step33 d0 (take (unat l - unat (0 :: 32 word) - 1)
                                          (drop (unat (0 :: 32 word)) k)))"
      using len small by (intro djb33_switch_char) simp_all
    then show ?thesis using False by simp
  next
    case True
    then have l4: "4 \<le> unat l"
      by (simp add: word_le_nat_alt)
    obtain i' where
      r: "djb33_loop k l d0 0
            = Some (foldl step33 d0 (take (unat i' - unat (0 :: 32 word))
                                          (drop (unat (0 :: 32 word)) k)), i')"
      and lt: "unat (0 :: 32 word) < unat l \<longrightarrow> unat i' < unat l"
      and ex: "\<not> (4 \<le> l \<and> i' < l - 4)"
      using djb33_loop_char [OF len, of d0 0] by blast
    have i'l: "unat i' < unat l" using lt l4 by simp
    have lo: "unat l - 4 \<le> unat i'"
      using ex True loop_exit_nat [of l i'] by simp
    let ?d = "foldl step33 d0 (take (unat i') k)"
    have sw: "djb33_switch k l ?d i'
                = Some (foldl step33 ?d (take (unat l - unat i' - 1) (drop (unat i') k)))"
      using len i'l lo by (intro djb33_switch_char) simp_all
    have "take (unat i' + (unat l - unat i' - 1)) k
            = take (unat i') k @ take (unat l - unat i' - 1) (drop (unat i') k)"
      by (rule take_add)
    moreover have "unat i' + (unat l - unat i' - 1) = unat l - 1"
      using i'l by simp
    ultimately have
      "foldl step33 ?d (take (unat l - unat i' - 1) (drop (unat i') k))
         = foldl step33 d0 (take (unat l - 1) k)"
      by simp
    then show ?thesis using True r sw by simp
  qed
  then show ?thesis
    by (auto simp: djb33_def Let_def l_def [symmetric] d0_def [symmetric])
qed

lemma djb33_total: "\<exists>h. djb33 seed k = Some h"
  by (simp add: djb33_char)

lemma djb33_last_byte:
  "djb33 seed (k @ [a]) = djb33 seed (k @ [b])"
proof -
  have "unat (word_of_nat (length (k @ [a])) :: 32 word) \<le> length (k @ [a])"
    by (rule unat_length_le)
  then have "unat (word_of_nat (Suc (length k)) :: 32 word) - 1 \<le> length k"
    by simp
  then show ?thesis
    by (simp add: djb33_char Let_def)
qed

lemma djb33_spec_butlast:
  assumes "length k < 2 ^ 32"
  shows "djb33 seed k =
     Some (let d = foldl step33 (5381 + seed + word_of_nat (length k)) (butlast k)
           in d XOR drop_bit 16 d)"
proof -
  have "unat (word_of_nat (length k) :: 32 word) = length k"
    using assms by (simp add: unat_of_nat)
  then show ?thesis
    by (simp add: djb33_char Let_def butlast_conv_take)
qed

text \<open>
  Claim C2 says that every byte of the key, the last included, is mixed into the hash.
  The code mixes every byte but the last: the hash of the one-byte key \<open>[97]\<close> under the
  seed 0 is 5382, where the streaming mix of the specification gives 177573, so that
  with 16 shards the key goes to shard 6 and not to shard 5; and two keys that differ in
  their last byte only always have the same hash.
\<close>

theorem djb33_skips_last_byte:
  "djb33 0 [97] = Some 5382
   \<and> djb33_spec 0 [97] = 177573
   \<and> bucket_index \<lparr>sc_seed = 0, sc_m = 16, sc_cs = cs\<rparr> [97] = Inr 6
   \<and> route_spec 0 16 [97] = 5
   \<and> djb33 seed (k @ [a]) = djb33 seed (k @ [b])"
proof -
  have "djb33 0 [97] = Some 5382"
    by (simp add: djb33_char step33_def)
  moreover have "djb33_spec 0 [97] = 177573"
    by (simp add: djb33_spec_def step33_def)
  moreover have "djb33 seed (k @ [a]) = djb33 seed (k @ [b])"
    by (rule djb33_last_byte)
  ultimately show ?thesis
    by (simp add: bucket_index_def route_spec_def)
qed

subsection \<open>Selecting a shard\<close>

text \<open>
  Claim C9, as stated for every shard count \<open>n \<ge> 1\<close>, fails at \<open>n = 2 ^ 32\<close>: the count
  truncated to 32 bits is 0, and \<^verbatim>\<open>bucket\<close> panics on the division instead of
  computing an index.
\<close>

theorem bucket_panics_at_2_32:
  "(1::int) \<le> 4294967296
   \<and> \<not> isl (newShardedCache 4294967296 (- 1) 0 :: panic + nat shardedCache)
   \<and> bucket (projr (newShardedCache 4294967296 (- 1) 0 :: panic + nat shardedCache)) [97]
        = Inl DivideByZero"
proof -
  have "(word_of_int 4294967296 :: 32 word) = 0"
    by simp
  then show ?thesis
    by (simp add: newShardedCache_def bucket_def bucket_index_def djb33_char)
qed

text \<open>
  Claim C9, amended: for every sharded cache constructed with a shard count \<open>n \<ge> 1\<close>
  that is not a multiple of \<open>2 ^ 32\<close> (every \<open>n\<close> from 1 to \<open>2 ^ 32 - 1\<close> is such a count),
  and for every seed and key, \<^verbatim>\<open>bucket\<close> computes an index below \<open>n\<close> and below the
  length of the shard slice, and returns the shard at that index.
\<close>

theorem bucket_index_in_range:
  assumes "1 \<le> n" and "n mod 2 ^ 32 \<noteq> 0" and "newShardedCache n de rnd = Inr sc"
  shows "\<exists>i. bucket_index sc k = Inr i \<and> i < nat n \<and> i < length (sc_cs sc)
             \<and> bucket sc k = Inr (sc_cs sc ! i)"
proof -
  have sc: "sc = \<lparr>sc_seed = rnd, sc_m = word_of_int n,
                  sc_cs = replicate (nat n)
                    \<lparr>cache_defaultExpiration = de, cache_items = Map.empty\<rparr>\<rparr>"
    using assms(1,3) by (simp add: newShardedCache_def)
  obtain h where h: "djb33 (sc_seed sc) k = Some h"
    using djb33_total by blast
  have u: "uint (word_of_int n :: 32 word) = n mod 2 ^ 32"
    by (simp add: uint_word_of_int)
  have "n mod 2 ^ 32 \<le> n"
    using assms(1) by (intro zmod_le_nonneg_dividend) simp
  then have mle: "unat (sc_m sc) \<le> nat n"
    using u sc by (simp add: unat_eq_nat_uint nat_mono)
  have m0: "sc_m sc \<noteq> 0"
    using u assms(2) sc by (auto simp: word_uint_eq_iff)
  have "h mod sc_m sc < sc_m sc"
    using m0 by (intro word_mod_less_divisor) (simp add: word_greater_zero_iff)
  then have "unat (h mod sc_m sc) < unat (sc_m sc)"
    by (simp add: word_less_nat_alt)
  then have "unat (h mod sc_m sc) < nat n"
    using mle by simp
  then show ?thesis
    using h m0 sc by (simp add: bucket_index_def bucket_def)
qed

theorem bucket_index_in_range_witness:
  "(1::int) \<le> 4 \<and> (4::int) mod 2 ^ 32 \<noteq> 0
   \<and> (newShardedCache 4 (- 1) 7 :: panic + nat shardedCache)
       = Inr \<lparr>sc_seed = 7, sc_m = 4,
               sc_cs = replicate 4 \<lparr>cache_defaultExpiration = - 1, cache_items = Map.empty\<rparr>\<rparr>
   \<and> (\<exists>i. bucket_index
        (\<lparr>sc_seed = 7, sc_m = 4,
          sc_cs = replicate 4 \<lparr>cache_defaultExpiration = - 1, cache_items = Map.empty\<rparr>\<rparr>
           :: nat shardedCache) [97] = Inr i
        \<and> i < 4)"
proof -
  have n: "(newShardedCache 4 (- 1) 7 :: panic + nat shardedCache)
       = Inr \<lparr>sc_seed = 7, sc_m = 4,
               sc_cs = replicate 4 \<lparr>cache_defaultExpiration = - 1, cache_items = Map.empty\<rparr>\<rparr>"
    by (simp add: newShardedCache_def)
  have h1: "(1::int) \<le> 4" and h2: "(4::int) mod 2 ^ 32 \<noteq> 0"
    by simp_all
  show ?thesis
    using bucket_index_in_range [OF h1 h2 n, of "[97]"] n h1 h2 by auto
qed

end
